theory Spec2Isabelle
  imports Main
begin

section \<open>Python strings\<close>

text \<open>
  The text that NVDA speaks, and what the user types into the search field, are Python
  \<open>str\<close> values: sequences of Unicode code points.  They are modelled as lists of
  natural numbers, one per code point.  \<open>ascii\<close> turns a literal into such a list.
\<close>

type_synonym codepoint = nat

type_synonym str = "codepoint list"

definition ascii :: "string \<Rightarrow> str" where
  "ascii s = map of_char s"

definition str_isspace :: "codepoint \<Rightarrow> bool" where
  \<comment> \<open>the code points that \<open>str.strip()\<close> removes\<close>
  "str_isspace c =
     (c \<in> {0x09, 0x0A, 0x0B, 0x0C, 0x0D, 0x1C, 0x1D, 0x1E, 0x1F, 0x20, 0x85, 0xA0, 0x1680,
            0x2028, 0x2029, 0x202F, 0x205F, 0x3000}
      \<or> (0x2000 \<le> c \<and> c \<le> 0x200A))"

definition str_lstrip :: "str \<Rightarrow> str" where
  "str_lstrip s = dropWhile str_isspace s"

definition str_rstrip :: "str \<Rightarrow> str" where
  "str_rstrip s = rev (dropWhile str_isspace (rev s))"

definition str_strip :: "str \<Rightarrow> str" where
  "str_strip s = str_rstrip (str_lstrip s)"

text \<open>
  \<open>str.lower()\<close> reads three tables of the Python runtime's Unicode database: the
  lower-case mapping of a code point (one code point or several), and the properties
  Cased and Case_Ignorable.  The tables are taken as given.  The method maps each code
  point through the first table, but for the capital sigma U+03A3, which becomes the
  final sigma U+03C2 when a cased code point stands before it and none after it
  (case-ignorable code points in between are skipped), and the small sigma U+03C3
  otherwise.
\<close>

record unicode_db =
  ToLowerFull :: "codepoint \<Rightarrow> str"
  IsCased :: "codepoint \<Rightarrow> bool"
  IsCaseIgnorable :: "codepoint \<Rightarrow> bool"

definition handle_capital_sigma :: "unicode_db \<Rightarrow> str \<Rightarrow> str \<Rightarrow> codepoint" where
  \<comment> \<open>\<open>before\<close>: the code points before the sigma, the nearest first;
      \<open>after\<close>: the code points after it\<close>
  "handle_capital_sigma u before after =
     (let final_sigma =
            (case dropWhile (IsCaseIgnorable u) before of
               [] \<Rightarrow> False
             | c # _ \<Rightarrow> IsCased u c);
          final_sigma =
            (if final_sigma
             then (case dropWhile (IsCaseIgnorable u) after of
                     [] \<Rightarrow> True
                   | c # _ \<Rightarrow> \<not> IsCased u c)
             else final_sigma)
      in if final_sigma then 0x3C2 else 0x3C3)"

fun do_lower :: "unicode_db \<Rightarrow> str \<Rightarrow> str \<Rightarrow> str" where
  \<comment> \<open>the second argument holds the code points already read, the last one first\<close>
  "do_lower u before [] = []"
| "do_lower u before (c # cs) =
     (if c = 0x3A3 then [handle_capital_sigma u before cs] else ToLowerFull u c)
     @ do_lower u (c # before) cs"

definition str_lower :: "unicode_db \<Rightarrow> str \<Rightarrow> str" where
  "str_lower u s = do_lower u [] s"

fun startswith :: "'a list \<Rightarrow> 'a list \<Rightarrow> bool" where
  "startswith s [] = True"
| "startswith [] (p # ps) = False"
| "startswith (c # cs) (p # ps) = (c = p \<and> startswith cs ps)"

fun str_contains :: "'a list \<Rightarrow> 'a list \<Rightarrow> bool" where
  \<comment> \<open>\<open>str_contains sub s\<close> is Python's \<open>sub in s\<close>\<close>
  "str_contains sub [] = (sub = [])"
| "str_contains sub (c # cs) = (startswith (c # cs) sub \<or> str_contains sub cs)"

fun join :: "'a list \<Rightarrow> 'a list list \<Rightarrow> 'a list" where
  \<comment> \<open>\<open>join sep xs\<close> is Python's \<open>sep.join(xs)\<close>\<close>
  "join sep [] = []"
| "join sep [x] = x"
| "join sep (x # y # ys) = x @ sep @ join sep (y # ys)"

section \<open>Speech sequences and the history deque\<close>

text \<open>
  A speech sequence is a list whose items are either \<open>str\<close> objects or speech commands.
  The source tells only one command class apart, \<open>FocusLossCancellableSpeechCommand\<close>;
  every other command is opaque.
\<close>

datatype speechItem =
    Str str
  | FocusLossCancellableSpeechCommand
  | OtherCommand nat

type_synonym speechSequence = "speechItem list"

fun isinstance_str :: "speechItem \<Rightarrow> bool" where
  "isinstance_str (Str t) = True"
| "isinstance_str _ = False"

fun str_of :: "speechItem \<Rightarrow> str" where
  "str_of (Str t) = t"
| "str_of _ = []"

text \<open>
  \<open>collections.deque(maxlen=m).appendleft(x)\<close>: the item is put at the left end and,
  when the deque is then longer than \<open>m\<close>, the item at the right end is dropped.
\<close>

definition appendleft :: "nat \<Rightarrow> 'a \<Rightarrow> 'a list \<Rightarrow> 'a list" where
  "appendleft m x xs = (let ys = x # xs in if length ys > m then butlast ys else ys)"

datatype error = IndexError

definition deque_getitem :: "'a list \<Rightarrow> int \<Rightarrow> error + 'a" where
  \<comment> \<open>\<open>d[i]\<close>; an index below zero is counted from the right end\<close>
  "deque_getitem d i =
     (if 0 \<le> i \<and> i < int (length d) then Inr (d ! nat i)
      else if - int (length d) \<le> i \<and> i < 0 then Inr (d ! nat (int (length d) + i))
      else Inl IndexError)"

section \<open>The host\<close>

text \<open>
  What the plugin reads from NVDA and from the Python runtime: the settings of its
  configuration section, the separator \<open>speechViewer.SPEECH_ITEM_SEPARATOR\<close>, and
  the Unicode tables.
\<close>

record host =
  SPEECH_ITEM_SEPARATOR :: str
  unicodedata :: unicode_db
  maxHistoryLength :: nat
  postCopyAction :: string
  beepFrequency :: nat
  beepDuration :: nat
  beepBoundaryPanning :: bool
  trimWhitespaceFromStart :: bool
  trimWhitespaceFromEnd :: bool

definition lower :: "host \<Rightarrow> str \<Rightarrow> str" where
  \<comment> \<open>\<open>s.lower()\<close>\<close>
  "lower h s = str_lower (unicodedata h) s"

text \<open>
  What the plugin does to the outside: calls of the original \<open>speak\<close> function, of
  \<open>tones.beep\<close> (the optional pair is the left and right volume, when given), of
  \<open>api.copyToClip\<close>, and an exception that leaves a script.
\<close>

datatype effect =
    OldSpeak speechSequence
  | Beep nat nat "(nat \<times> nat) option"
  | CopyToClip str
  | Uncaught error

definition POST_COPY_BEEP :: string where "POST_COPY_BEEP = ''beep''"
definition POST_COPY_SPEAK :: string where "POST_COPY_SPEAK = ''speak''"
definition POST_COPY_BOTH :: string where "POST_COPY_BOTH = ''speakAndBeep''"
definition BOUNDARY_BEEP_FREQUENCY :: nat where "BOUNDARY_BEEP_FREQUENCY = 200"
definition BOUNDARY_BEEP_DURATION :: nat where "BOUNDARY_BEEP_DURATION = 100"

section \<open>GlobalPlugin\<close>

record plugin =
  history_deque :: "speechSequence list"  \<comment> \<open>\<open>self._history\<close>, leftmost item first\<close>
  maxlen :: nat                            \<comment> \<open>the \<open>maxlen\<close> of \<open>self._history\<close>\<close>
  recorded :: "str list"                   \<comment> \<open>\<open>self._recorded\<close>\<close>
  recording :: bool                        \<comment> \<open>\<open>self._recording\<close>\<close>
  history_pos :: int

definition init :: "host \<Rightarrow> plugin" where
  \<comment> \<open>the fields \<open>__init__\<close> sets (the update check it may start touches none of them)\<close>
  "init h = \<lparr>history_deque = [], maxlen = maxHistoryLength h, recorded = [],
             recording = False, history_pos = 0\<rparr>"

definition getSequenceText :: "host \<Rightarrow> speechSequence \<Rightarrow> str" where
  "getSequenceText h sequence =
     join (SPEECH_ITEM_SEPARATOR h) (map str_of (filter isinstance_str sequence))"

definition speakMessage :: "str \<Rightarrow> effect list" where
  "speakMessage message = [OldSpeak [Str message]]"

definition performPostCopyFeedback :: "host \<Rightarrow> effect list" where
  "performPostCopyFeedback h =
     (if postCopyAction h = POST_COPY_BEEP \<or> postCopyAction h = POST_COPY_BOTH
      then [Beep (beepFrequency h) (beepDuration h) None] else [])
     @ (if postCopyAction h = POST_COPY_SPEAK \<or> postCopyAction h = POST_COPY_BOTH
        then speakMessage (ascii ''Copied'') else [])"

definition beepHistoryBoundary :: "host \<Rightarrow> bool \<Rightarrow> effect list" where
  "beepHistoryBoundary h atBeginning =
     (if beepBoundaryPanning h
      then (if atBeginning
            then [Beep BOUNDARY_BEEP_FREQUENCY BOUNDARY_BEEP_DURATION (Some (0, 100))]
            else [Beep BOUNDARY_BEEP_FREQUENCY BOUNDARY_BEEP_DURATION (Some (100, 0))])
      else [Beep BOUNDARY_BEEP_FREQUENCY BOUNDARY_BEEP_DURATION None])"

definition append_to_history :: "host \<Rightarrow> speechSequence \<Rightarrow> plugin \<Rightarrow> plugin" where
  "append_to_history h sequence s =
     (let seq = filter (\<lambda>command. command \<noteq> FocusLossCancellableSpeechCommand) sequence;
          s1 = s\<lparr>history_deque := appendleft (maxlen s) seq (history_deque s)\<rparr>;
          s2 = s1\<lparr>history_pos := 0\<rparr>
      in if recording s2 then s2\<lparr>recorded := recorded s2 @ [getSequenceText h seq]\<rparr>
         else s2)"

text \<open>
  \<open>mySpeak\<close> hands \<open>append_to_history\<close> to the host's event queue.  The queue runs its
  functions one at a time, in order, between the scripts; the model runs the function
  at once.
\<close>

definition mySpeak :: "host \<Rightarrow> speechSequence \<Rightarrow> plugin \<Rightarrow> plugin \<times> effect list" where
  "mySpeak h sequence s =
     (let text = getSequenceText h sequence
      in if str_strip text \<noteq> [] then (append_to_history h sequence s, [OldSpeak sequence])
         else (s, [OldSpeak sequence]))"

definition script_copyLast :: "host \<Rightarrow> bool \<Rightarrow> plugin \<Rightarrow> plugin \<times> effect list" where
  \<comment> \<open>\<open>copied\<close> is what \<open>api.copyToClip\<close> returns\<close>
  "script_copyLast h copied s =
     (if history_deque s = [] then (s, speakMessage (ascii ''No history items.''))
      else case deque_getitem (history_deque s) (history_pos s) of
             Inl e \<Rightarrow> (s, [Uncaught e])
           | Inr item \<Rightarrow>
               (let text = getSequenceText h item;
                    text = (if trimWhitespaceFromStart h then str_lstrip text else text);
                    text = (if trimWhitespaceFromEnd h then str_rstrip text else text)
                in (s, CopyToClip text # (if copied then performPostCopyFeedback h else []))))"

definition script_prevString :: "host \<Rightarrow> plugin \<Rightarrow> plugin \<times> effect list" where
  "script_prevString h s =
     (if history_deque s = [] then (s, speakMessage (ascii ''No history items.''))
      else
        let s1 = s\<lparr>history_pos := history_pos s + 1\<rparr>;
            (s2, fx) =
              (if history_pos s1 > int (length (history_deque s1)) - 1
               then (s1\<lparr>history_pos := history_pos s1 - 1\<rparr>, beepHistoryBoundary h False)
               else (s1, []))
        in case deque_getitem (history_deque s2) (history_pos s2) of
             Inl e \<Rightarrow> (s2, fx @ [Uncaught e])
           | Inr item \<Rightarrow> (s2, fx @ [OldSpeak item]))"

definition script_nextString :: "host \<Rightarrow> plugin \<Rightarrow> plugin \<times> effect list" where
  "script_nextString h s =
     (if history_deque s = [] then (s, speakMessage (ascii ''No history items.''))
      else
        let s1 = s\<lparr>history_pos := history_pos s - 1\<rparr>;
            (s2, fx) =
              (if history_pos s1 < 0
               then (s1\<lparr>history_pos := history_pos s1 + 1\<rparr>, beepHistoryBoundary h True)
               else (s1, []))
        in case deque_getitem (history_deque s2) (history_pos s2) of
             Inl e \<Rightarrow> (s2, fx @ [Uncaught e])
           | Inr item \<Rightarrow> (s2, fx @ [OldSpeak item]))"

definition script_startRecording :: "plugin \<Rightarrow> plugin \<times> effect list" where
  "script_startRecording s =
     (if recording s then (s, speakMessage (ascii ''Already recording speech''))
      else (s\<lparr>recording := True\<rparr>, speakMessage (ascii ''Started recording speech'')))"

definition script_stopRecording :: "plugin \<Rightarrow> plugin \<times> effect list" where
  "script_stopRecording s =
     (if \<not> recording s then (s, speakMessage (ascii ''Not currently recording speech''))
      else
        let s1 = s\<lparr>recording := False\<rparr>;
            recordedText = join (ascii ''\<newline>'') (recorded s1);
            s2 = s1\<lparr>recorded := []\<rparr>
        in if recordedText \<noteq> []
           then (s2, CopyToClip recordedText # speakMessage (ascii ''Recorded speech copied to clipboard''))
           else (s2, speakMessage (ascii ''No recorded speech to copy'')))"

definition clearHistory :: "plugin \<Rightarrow> plugin" where
  "clearHistory s = s\<lparr>history_deque := [], history_pos := 0, recorded := []\<rparr>"

subsection \<open>Runs of the plugin\<close>

text \<open>
  The calls that reach the plugin while it is loaded: intercepted speech, the five
  scripts that work on the history, and \<open>clearHistory\<close> (from the dialog).  They run
  one after the other.  A reachable plugin state is the state after a run that starts
  from \<open>init\<close>.
\<close>

datatype action =
    Speak speechSequence
  | CopyLast bool
  | PrevString
  | NextString
  | StartRecording
  | StopRecording
  | ClearHistory

fun step :: "host \<Rightarrow> action \<Rightarrow> plugin \<Rightarrow> plugin \<times> effect list" where
  "step h (Speak sequence) s = mySpeak h sequence s"
| "step h (CopyLast copied) s = script_copyLast h copied s"
| "step h PrevString s = script_prevString h s"
| "step h NextString s = script_nextString h s"
| "step h StartRecording s = script_startRecording s"
| "step h StopRecording s = script_stopRecording s"
| "step h ClearHistory s = (clearHistory s, [])"

fun run :: "host \<Rightarrow> action list \<Rightarrow> plugin \<Rightarrow> plugin" where
  "run h [] s = s"
| "run h (a # as) s = run h as (fst (step h a s))"

fun trace :: "host \<Rightarrow> action list \<Rightarrow> plugin \<Rightarrow> effect list" where
  \<comment> \<open>everything a run does to the outside, in order\<close>
  "trace h [] s = []"
| "trace h (a # as) s = snd (step h a s) @ trace h as (fst (step h a s))"

fun pushes :: "host \<Rightarrow> speechSequence list \<Rightarrow> plugin \<Rightarrow> plugin" where
  \<comment> \<open>\<open>append_to_history\<close> called with each sequence in turn\<close>
  "pushes h [] s = s"
| "pushes h (q # qs) s = pushes h qs (append_to_history h q s)"

definition entry_of :: "speechSequence \<Rightarrow> speechSequence" where
  \<comment> \<open>the entry that \<open>append_to_history\<close> stores for a sequence\<close>
  "entry_of sequence = filter (\<lambda>command. command \<noteq> FocusLossCancellableSpeechCommand) sequence"

section \<open>Version comparison\<close>











definition field :: "int list \<Rightarrow> nat \<Rightarrow> int" where
  \<comment> \<open>the \<open>i\<close>-th field of a version, a missing field counting as 0\<close>
  "field t i = (if i < length t then t ! i else 0)"


section \<open>HistoryDialog\<close>

text \<open>
  The fields of the dialog that the search works on, and of its list control the items
  and the focused item (\<open>GetFocusedItem\<close> answers \<open>-1\<close> when no item has the focus, as
  after \<open>DeleteAllItems\<close>).  The selection and the text field that shows it are left out.
\<close>

record dialog =
  history :: "str list"
  searchHistory :: "str list"
  searches :: "str \<rightharpoonup> int"
  curSearch :: str
  historyList :: "str list"
  focusedItem :: int

definition doSearch :: "host \<Rightarrow> str \<Rightarrow> dialog \<Rightarrow> dialog" where
  "doSearch h text d =
     (let d1 = d\<lparr>searchHistory :=
                   (if text = [] then history d
                    else filter (\<lambda>item. str_contains text (lower h item)) (history d))\<rparr>;
          d2 = d1\<lparr>historyList := [], focusedItem := - 1\<rparr>;
          d3 = d2\<lparr>historyList := map (take 100) (searchHistory d2)\<rparr>
      in if searchHistory d3 \<noteq> [] then
           let index = (case searches d3 text of None \<Rightarrow> 0 | Some i \<Rightarrow> i);
               index = (if index \<ge> int (length (searchHistory d3))
                        then int (length (searchHistory d3)) - 1 else index);
               index = max index 0
           in d3\<lparr>focusedItem := index\<rparr>
         else d3)"

definition updateHistory :: "host \<Rightarrow> plugin \<Rightarrow> dialog \<Rightarrow> dialog" where
  "updateHistory h addon d =
     doSearch h (curSearch d) (d\<lparr>history := map (getSequenceText h) (history_deque addon)\<rparr>)"

definition onSearch :: "host \<Rightarrow> str \<Rightarrow> dialog \<Rightarrow> dialog" where
  \<comment> \<open>\<open>val\<close> is the content of the search field\<close>
  "onSearch h val d =
     (let text = lower h val
      in if text = curSearch d then d
         else
           let index = focusedItem d;
               index = (if index < 0 then 0 else index);
               d1 = d\<lparr>searches := (searches d)(curSearch d \<mapsto> index)\<rparr>;
               d2 = d1\<lparr>curSearch := text\<rparr>
           in doSearch h text d2)"

definition HistoryDialog_init :: "host \<Rightarrow> plugin \<Rightarrow> dialog" where
  \<comment> \<open>a new dialog: the fields \<open>__init__\<close> sets, then \<open>updateHistory\<close>\<close>
  "HistoryDialog_init h addon =
     updateHistory h addon
       \<lparr>history = [], searchHistory = [], searches = [[] \<mapsto> 0], curSearch = [],
        historyList = [], focusedItem = - 1\<rparr>"





section \<open>Invariants of the plugin state\<close>

definition rec_inv :: "plugin \<Rightarrow> bool" where
  \<comment> \<open>nothing is held in \<open>_recorded\<close> unless a recording is running\<close>
  "rec_inv s = (recording s \<or> recorded s = [])"

definition cursor_inv :: "plugin \<Rightarrow> bool" where
  \<comment> \<open>\<open>history_pos\<close> is an index of the deque, and 0 when the deque is empty\<close>
  "cursor_inv s =
     (if history_deque s = [] then history_pos s = 0
      else 0 \<le> history_pos s \<and> history_pos s < int (length (history_deque s)))"

section \<open>Invariant of the dialog\<close>


section \<open>Concrete values\<close>

definition unicode_sample :: unicode_db where
  \<comment> \<open>Python's tables on U+0000 .. U+00FF and on the Greek letters U+0391 .. U+03C9;
      the examples use no other code point\<close>
  "unicode_sample =
     \<lparr>ToLowerFull =
        (\<lambda>c. if (0x41 \<le> c \<and> c \<le> 0x5A) \<or> (0xC0 \<le> c \<and> c \<le> 0xDE \<and> c \<noteq> 0xD7)
                  \<or> (0x391 \<le> c \<and> c \<le> 0x3AB \<and> c \<noteq> 0x3A2)
               then [c + 32] else [c]),
      IsCased =
        (\<lambda>c. (0x41 \<le> c \<and> c \<le> 0x5A) \<or> (0x61 \<le> c \<and> c \<le> 0x7A) \<or> c \<in> {0xAA, 0xB5, 0xBA}
              \<or> (0xC0 \<le> c \<and> c \<le> 0xFF \<and> c \<noteq> 0xD7 \<and> c \<noteq> 0xF7)
              \<or> (0x391 \<le> c \<and> c \<le> 0x3C9 \<and> c \<noteq> 0x3A2)),
      IsCaseIgnorable =
        (\<lambda>c. c \<in> {0x27, 0x2E, 0x3A, 0x5E, 0x60, 0xA8, 0xAD, 0xAF, 0xB4, 0xB7, 0xB8})\<rparr>"

definition host0 :: host where
  "host0 = \<lparr>SPEECH_ITEM_SEPARATOR = ascii ''  '', unicodedata = unicode_sample,
            maxHistoryLength = 2, postCopyAction = ''beep'',
            beepFrequency = 400, beepDuration = 20, beepBoundaryPanning = False,
            trimWhitespaceFromStart = False, trimWhitespaceFromEnd = False\<rparr>"

definition host1 :: host where
  "host1 = host0\<lparr>maxHistoryLength := 500, beepBoundaryPanning := True\<rparr>"

definition one_entry :: plugin where
  "one_entry = run host0 [Speak [Str (ascii ''a'')]] (init host0)"

definition two_entries :: plugin where
  "two_entries = pushes host0 [[Str (ascii ''a'')], [Str (ascii ''b'')]] (init host0)"

definition three_entries :: plugin where
  "three_entries =
     pushes host1 [[Str (ascii ''hello there'')], [Str (ascii ''Goodbye'')], [Str (ascii ''Hello world'')]] (init host1)"






section \<open>Evaluating the concrete values\<close>

lemmas str_eval = ascii_def str_strip_def str_lstrip_def str_rstrip_def str_isspace_def
  lower_def str_lower_def handle_capital_sigma_def unicode_sample_def host1_def host0_def

lemmas dialog_eval = HistoryDialog_init_def updateHistory_def doSearch_def onSearch_def
  getSequenceText_def init_def append_to_history_def appendleft_def mySpeak_def Let_def

lemma ascii_eq_Nil: "ascii s = [] \<longleftrightarrow> s = []"
  by (simp add: ascii_def)

section \<open>The history deque\<close>

lemma appendleft_take:
  "length xs \<le> m \<Longrightarrow> appendleft m x xs = take m (x # xs)"
  by (cases "length xs = m") (auto simp: appendleft_def Let_def butlast_conv_take)

lemma append_to_history_deque:
  "history_deque (append_to_history h q s) = appendleft (maxlen s) (entry_of q) (history_deque s)"
  by (simp add: append_to_history_def entry_of_def Let_def)

lemma append_to_history_maxlen:
  "maxlen (append_to_history h q s) = maxlen s"
  by (simp add: append_to_history_def Let_def)

lemma append_to_history_pos:
  "history_pos (append_to_history h q s) = 0"
  by (simp add: append_to_history_def Let_def)

lemma pushes_maxlen: "maxlen (pushes h qs s) = maxlen s"
  by (induction qs arbitrary: s) (simp_all add: append_to_history_maxlen)

lemma pushes_deque:
  "length (history_deque s) \<le> maxlen s \<Longrightarrow>
   history_deque (pushes h qs s) = take (maxlen s) (rev (map entry_of qs) @ history_deque s)"
proof (induction qs arbitrary: s)
  case Nil
  then show ?case by simp
next
  case (Cons q qs)
  let ?s = "append_to_history h q s"
  have d: "history_deque ?s = take (maxlen s) (entry_of q # history_deque s)"
    using Cons.prems by (simp add: append_to_history_deque appendleft_take)
  have "length (history_deque ?s) \<le> maxlen ?s"
    by (simp add: d append_to_history_maxlen)
  then have "history_deque (pushes h qs ?s)
             = take (maxlen s) (rev (map entry_of qs) @ take (maxlen s) (entry_of q # history_deque s))"
    using Cons.IH [of ?s] by (simp add: d append_to_history_maxlen)
  also have "\<dots> = take (maxlen s) (rev (map entry_of qs) @ entry_of q # history_deque s)"
    by (simp add: take_add min_def)
  finally show ?case by simp
qed

text \<open>
  C1.  Start from the empty history of a new plugin and call \<open>append_to_history\<close> with
  the sequences \<open>qs\<close>, one after the other (any number of them, so the statement holds
  after each push).  Then the deque is no longer than its capacity, it holds the entries
  of the last \<open>min (length qs) capacity\<close> sequences, the latest first, and for a capacity
  of at least 1 and at least one push the entry at index 0 is the one pushed last.  The
  entry stored for a sequence is the sequence without its
  \<open>FocusLossCancellableSpeechCommand\<close> items.
\<close>

theorem history_holds_most_recent:
  "length (history_deque (pushes h qs (init h))) \<le> maxHistoryLength h
   \<and> history_deque (pushes h qs (init h))
       = take (min (length qs) (maxHistoryLength h)) (rev (map entry_of qs))
   \<and> (1 \<le> maxHistoryLength h \<and> qs \<noteq> [] \<longrightarrow>
        deque_getitem (history_deque (pushes h qs (init h))) 0 = Inr (entry_of (last qs)))"
proof -
  have d: "history_deque (pushes h qs (init h)) = take (maxHistoryLength h) (rev (map entry_of qs))"
    using pushes_deque [of "init h" h qs] by (simp add: init_def)
  have a: "length (history_deque (pushes h qs (init h))) \<le> maxHistoryLength h"
    by (simp add: d)
  have b: "take (maxHistoryLength h) (rev (map entry_of qs))
           = take (min (length qs) (maxHistoryLength h)) (rev (map entry_of qs))"
    by (simp add: min_def)
  have c: "deque_getitem (history_deque (pushes h qs (init h))) 0 = Inr (entry_of (last qs))"
    if c1: "1 \<le> maxHistoryLength h" and c2: "qs \<noteq> []"
  proof -
    obtain ys y where qs: "qs = ys @ [y]" using c2 by (meson rev_exhaust)
    obtain m where m: "maxHistoryLength h = Suc m" using c1 by (cases "maxHistoryLength h") auto
    have "history_deque (pushes h qs (init h)) = entry_of y # take m (rev (map entry_of ys))"
      using d unfolding qs m by simp
    then show ?thesis by (simp add: deque_getitem_def qs)
  qed
  show ?thesis using a b c d by simp
qed

theorem history_holds_most_recent_witness:
  "1 \<le> maxHistoryLength host0
   \<and> [[Str (ascii ''a'')], [Str (ascii ''b'')], [Str (ascii ''c''), FocusLossCancellableSpeechCommand]] \<noteq> []
   \<and> history_deque (pushes host0
        [[Str (ascii ''a'')], [Str (ascii ''b'')], [Str (ascii ''c''), FocusLossCancellableSpeechCommand]] (init host0))
       = [[Str (ascii ''c'')], [Str (ascii ''b'')]]
   \<and> deque_getitem (history_deque (pushes host0
        [[Str (ascii ''a'')], [Str (ascii ''b'')], [Str (ascii ''c''), FocusLossCancellableSpeechCommand]] (init host0))) 0
       = Inr [Str (ascii ''c'')]"
  using history_holds_most_recent
          [of host0 "[[Str (ascii ''a'')], [Str (ascii ''b'')], [Str (ascii ''c''), FocusLossCancellableSpeechCommand]]"]
  by (simp add: host0_def entry_of_def deque_getitem_def)

section \<open>Invariants along runs\<close>

lemma run_append: "run h (as @ bs) s = run h bs (run h as s)"
  by (induction as arbitrary: s) simp_all

lemma rec_inv_init: "rec_inv (init h)"
  by (simp add: rec_inv_def init_def)

lemma rec_inv_append_to_history: "rec_inv s \<Longrightarrow> rec_inv (append_to_history h q s)"
  by (auto simp: rec_inv_def append_to_history_def Let_def)

lemma rec_inv_mySpeak: "rec_inv s \<Longrightarrow> rec_inv (fst (mySpeak h q s))"
  by (simp add: mySpeak_def Let_def rec_inv_append_to_history)

lemma rec_inv_copyLast: "rec_inv s \<Longrightarrow> rec_inv (fst (script_copyLast h c s))"
  by (simp add: script_copyLast_def Let_def split: sum.splits)

lemma rec_inv_prevString: "rec_inv s \<Longrightarrow> rec_inv (fst (script_prevString h s))"
  by (simp add: script_prevString_def Let_def rec_inv_def split: sum.splits)

lemma rec_inv_nextString: "rec_inv s \<Longrightarrow> rec_inv (fst (script_nextString h s))"
  by (simp add: script_nextString_def Let_def rec_inv_def split: sum.splits)

lemma rec_inv_startRecording: "rec_inv (fst (script_startRecording s))"
  by (simp add: script_startRecording_def rec_inv_def)

lemma rec_inv_stopRecording: "rec_inv s \<Longrightarrow> rec_inv (fst (script_stopRecording s))"
  by (auto simp: script_stopRecording_def rec_inv_def Let_def)

lemma rec_inv_clearHistory: "rec_inv (clearHistory s)"
  by (simp add: clearHistory_def rec_inv_def)

lemma rec_inv_step: "rec_inv s \<Longrightarrow> rec_inv (fst (step h a s))"
  by (cases a)
     (simp_all add: rec_inv_mySpeak rec_inv_copyLast rec_inv_prevString rec_inv_nextString
        rec_inv_startRecording rec_inv_stopRecording rec_inv_clearHistory)

lemma rec_inv_run: "rec_inv s \<Longrightarrow> rec_inv (run h as s)"
  by (induction as arbitrary: s) (simp_all add: rec_inv_step)

text \<open>
  C9.  In every state the plugin reaches from \<open>init\<close>, \<open>_recorded\<close> is empty unless a
  recording is running (\<open>rec_inv\<close>); and appending to the history, intercepted speech,
  starting and stopping a recording and clearing the history each keep \<open>rec_inv\<close>.
\<close>

theorem accumulator_empty_when_idle:
  "rec_inv (run h as (init h))
   \<and> (rec_inv s \<longrightarrow>
        rec_inv (append_to_history h q s) \<and> rec_inv (fst (mySpeak h q s))
        \<and> rec_inv (fst (script_startRecording s)) \<and> rec_inv (fst (script_stopRecording s))
        \<and> rec_inv (clearHistory s))"
  by (simp add: rec_inv_run rec_inv_init rec_inv_append_to_history rec_inv_mySpeak
        rec_inv_startRecording rec_inv_stopRecording rec_inv_clearHistory)

theorem accumulator_empty_when_idle_witness:
  "rec_inv (run host0 [StartRecording, Speak [Str (ascii ''a'')], StopRecording, ClearHistory] (init host0))
   \<and> rec_inv (init host0)
   \<and> rec_inv (append_to_history host0 [Str (ascii ''a'')] (init host0))
   \<and> rec_inv (fst (mySpeak host0 [Str (ascii ''a'')] (init host0)))
   \<and> rec_inv (fst (script_startRecording (init host0)))
   \<and> rec_inv (fst (script_stopRecording (init host0)))
   \<and> rec_inv (clearHistory (init host0))"
proof -
  have i: "rec_inv (init host0)" by (simp add: rec_inv_def init_def)
  show ?thesis
    using accumulator_empty_when_idle
            [of host0 "[StartRecording, Speak [Str (ascii ''a'')], StopRecording, ClearHistory]"
                "init host0" "[Str (ascii ''a'')]"] i
    by simp
qed

lemma cursor_inv_init: "cursor_inv (init h)"
  by (simp add: cursor_inv_def init_def)

lemma cursor_inv_append_to_history: "cursor_inv (append_to_history h q s)"
  by (auto simp: cursor_inv_def append_to_history_def Let_def)

lemma cursor_inv_mySpeak: "cursor_inv s \<Longrightarrow> cursor_inv (fst (mySpeak h q s))"
  by (simp add: mySpeak_def Let_def cursor_inv_append_to_history)

lemma cursor_inv_copyLast: "cursor_inv s \<Longrightarrow> cursor_inv (fst (script_copyLast h c s))"
  by (simp add: script_copyLast_def Let_def split: sum.splits)

lemma cursor_inv_prevString: "cursor_inv s \<Longrightarrow> cursor_inv (fst (script_prevString h s))"
  by (auto simp: script_prevString_def Let_def cursor_inv_def split: sum.splits if_splits)

lemma cursor_inv_nextString: "cursor_inv s \<Longrightarrow> cursor_inv (fst (script_nextString h s))"
  by (auto simp: script_nextString_def Let_def cursor_inv_def split: sum.splits if_splits)

lemma cursor_inv_startRecording: "cursor_inv s \<Longrightarrow> cursor_inv (fst (script_startRecording s))"
  by (simp add: script_startRecording_def cursor_inv_def)

lemma cursor_inv_stopRecording: "cursor_inv s \<Longrightarrow> cursor_inv (fst (script_stopRecording s))"
  by (simp add: script_stopRecording_def cursor_inv_def Let_def)

lemma cursor_inv_clearHistory: "cursor_inv (clearHistory s)"
  by (simp add: clearHistory_def cursor_inv_def)

lemma cursor_inv_step: "cursor_inv s \<Longrightarrow> cursor_inv (fst (step h a s))"
  by (cases a)
     (simp_all add: cursor_inv_mySpeak cursor_inv_copyLast cursor_inv_prevString
        cursor_inv_nextString cursor_inv_startRecording cursor_inv_stopRecording
        cursor_inv_clearHistory)

lemma cursor_inv_run: "cursor_inv s \<Longrightarrow> cursor_inv (run h as s)"
  by (induction as arbitrary: s) (simp_all add: cursor_inv_step)

lemma dropWhile_all: "(\<forall>c\<in>set s. P c) \<Longrightarrow> dropWhile P s = []"
  by (induction s) simp_all

lemma strip_whitespace_only: "(\<forall>c\<in>set s. str_isspace c) \<Longrightarrow> str_strip s = []"
  by (simp add: str_strip_def str_lstrip_def str_rstrip_def dropWhile_all)

lemma strip_empty_iff: "str_strip s = [] \<longleftrightarrow> (\<forall>c\<in>set s. str_isspace c)"
proof
  assume a: "str_strip s = []"
  have "dropWhile str_isspace (rev (dropWhile str_isspace s)) = []"
    using a by (simp add: str_strip_def str_lstrip_def str_rstrip_def)
  then have "\<forall>c\<in>set (rev (dropWhile str_isspace s)). str_isspace c"
    by (simp add: dropWhile_eq_Nil_conv)
  then have "dropWhile str_isspace s = []"
    by (metis dropWhile_eq_Nil_conv hd_dropWhile list.set_sel(1) set_rev)
  then show "\<forall>c\<in>set s. str_isspace c" by (simp add: dropWhile_eq_Nil_conv)
qed (rule strip_whitespace_only)

text \<open>
  C10.  When the text of an intercepted sequence is empty or has white space only,
  \<open>mySpeak\<close> passes the sequence on to the original \<open>speak\<close> and leaves the plugin
  state as it is: the history, the cursor and the recorded texts do not change.
\<close>

theorem whitespace_sequence_not_appended:
  "\<forall>c\<in>set (getSequenceText h sequence). str_isspace c \<Longrightarrow>
   fst (mySpeak h sequence s) = s \<and> snd (mySpeak h sequence s) = [OldSpeak sequence]"
  by (simp add: mySpeak_def Let_def strip_whitespace_only)

theorem whitespace_sequence_not_appended_witness:
  "getSequenceText host0 [Str (ascii '' ''), OtherCommand 0, Str []] = ascii ''   ''
   \<and> str_isspace 0x20
   \<and> fst (mySpeak host0 [Str (ascii '' ''), OtherCommand 0, Str []] one_entry) = one_entry
   \<and> snd (mySpeak host0 [Str (ascii '' ''), OtherCommand 0, Str []] one_entry)
       = [OldSpeak [Str (ascii '' ''), OtherCommand 0, Str []]]"
proof -
  have t: "getSequenceText host0 [Str (ascii '' ''), OtherCommand 0, Str []] = ascii ''   ''"
    by (simp add: getSequenceText_def host0_def ascii_def)
  have w: "str_isspace 0x20" by (simp add: str_isspace_def)
  have "\<forall>c\<in>set (getSequenceText host0 [Str (ascii '' ''), OtherCommand 0, Str []]). str_isspace c"
    unfolding t by (simp add: ascii_def str_isspace_def)
  from whitespace_sequence_not_appended [OF this, of one_entry] show ?thesis
    using t w by simp
qed

section \<open>Moving the cursor\<close>

lemma prevString_at_oldest:
  "cursor_inv s \<Longrightarrow> history_deque s \<noteq> [] \<Longrightarrow>
   history_pos s + 1 > int (length (history_deque s)) - 1 \<Longrightarrow>
   script_prevString h s
     = (s, beepHistoryBoundary h False @ [OldSpeak (history_deque s ! nat (history_pos s))])"
  by (simp add: script_prevString_def cursor_inv_def deque_getitem_def)

lemma nextString_at_newest:
  "cursor_inv s \<Longrightarrow> history_deque s \<noteq> [] \<Longrightarrow> history_pos s - 1 < 0 \<Longrightarrow>
   script_nextString h s
     = (s, beepHistoryBoundary h True @ [OldSpeak (history_deque s ! nat (history_pos s))])"
  by (simp add: script_nextString_def cursor_inv_def deque_getitem_def)

lemma boundary_beeps_differ:
  "beepHistoryBoundary h False \<noteq> beepHistoryBoundary h True \<longleftrightarrow> beepBoundaryPanning h"
  by (simp add: beepHistoryBoundary_def)

text \<open>
  C2, as the code has it.  In a reachable state with a non-empty history, when
  \<open>script_prevString\<close> would move the cursor past the oldest entry, or
  \<open>script_nextString\<close> past the newest, the state stays as it is, the boundary beep is
  played (\<open>atBeginning\<close> false at the oldest end, true at the newest), and then the entry
  at the cursor is spoken again.  The two beeps differ exactly when
  \<open>beepBoundaryPanning\<close> is set.
\<close>

theorem boundary_keeps_state_and_speaks:
  assumes "s = run h as (init h)" and "history_deque s \<noteq> []"
  shows "(history_pos s + 1 > int (length (history_deque s)) - 1 \<longrightarrow>
            script_prevString h s
              = (s, beepHistoryBoundary h False @ [OldSpeak (history_deque s ! nat (history_pos s))]))
         \<and> (history_pos s - 1 < 0 \<longrightarrow>
            script_nextString h s
              = (s, beepHistoryBoundary h True @ [OldSpeak (history_deque s ! nat (history_pos s))]))
         \<and> (beepHistoryBoundary h False \<noteq> beepHistoryBoundary h True \<longleftrightarrow> beepBoundaryPanning h)"
proof -
  have "cursor_inv s" using assms(1) by (simp add: cursor_inv_run cursor_inv_init)
  then show ?thesis
    using assms(2) by (simp add: prevString_at_oldest nextString_at_newest boundary_beeps_differ)
qed

lemma one_entry_eq:
  "one_entry = \<lparr>history_deque = [[Str (ascii ''a'')]], maxlen = 2, recorded = [], recording = False,
                history_pos = 0\<rparr>"
  by (simp add: one_entry_def str_eval dialog_eval)

theorem boundary_keeps_state_and_speaks_witness:
  "one_entry = run host0 [Speak [Str (ascii ''a'')]] (init host0) \<and> history_deque one_entry \<noteq> []
   \<and> history_pos one_entry + 1 > int (length (history_deque one_entry)) - 1
   \<and> history_pos one_entry - 1 < 0
   \<and> script_prevString host0 one_entry = (one_entry, [Beep 200 100 None, OldSpeak [Str (ascii ''a'')]])
   \<and> script_nextString host0 one_entry = (one_entry, [Beep 200 100 None, OldSpeak [Str (ascii ''a'')]])"
proof -
  have r: "one_entry = run host0 [Speak [Str (ascii ''a'')]] (init host0)"
    by (simp add: one_entry_def)
  have n: "history_deque one_entry \<noteq> []"
    by (simp add: one_entry_eq)
  have b: "beepHistoryBoundary host0 False = [Beep 200 100 None]"
          "beepHistoryBoundary host0 True = [Beep 200 100 None]"
    by (simp_all add: beepHistoryBoundary_def host0_def BOUNDARY_BEEP_FREQUENCY_def
          BOUNDARY_BEEP_DURATION_def)
  have p: "history_pos one_entry = 0" "length (history_deque one_entry) = 1"
          "history_deque one_entry ! 0 = [Str (ascii ''a'')]"
    by (simp_all add: one_entry_eq)
  show ?thesis
    using boundary_keeps_state_and_speaks [OF r n] r n by (simp add: b p)
qed

text \<open>
  C2 as written says that no entry is read at a boundary.  On a history of one entry
  both scripts speak that entry after the beep; with \<open>beepBoundaryPanning\<close> off, as in
  \<open>host0\<close>, the beep is the same at both ends.
\<close>

theorem boundary_entry_spoken_counterexample:
  "history_deque one_entry \<noteq> []
   \<and> history_pos one_entry + 1 > int (length (history_deque one_entry)) - 1
   \<and> history_pos one_entry - 1 < 0
   \<and> script_prevString host0 one_entry = (one_entry, [Beep 200 100 None, OldSpeak [Str (ascii ''a'')]])
   \<and> script_nextString host0 one_entry = (one_entry, [Beep 200 100 None, OldSpeak [Str (ascii ''a'')]])"
  by (simp add: one_entry_eq script_prevString_def script_nextString_def deque_getitem_def
        beepHistoryBoundary_def host0_def BOUNDARY_BEEP_FREQUENCY_def BOUNDARY_BEEP_DURATION_def)

lemma prevString_inside:
  "0 \<le> history_pos s \<Longrightarrow> history_pos s + 1 < int (length (history_deque s)) \<Longrightarrow>
   script_prevString h s
     = (s\<lparr>history_pos := history_pos s + 1\<rparr>, [OldSpeak (history_deque s ! nat (history_pos s + 1))])"
  by (auto simp: script_prevString_def deque_getitem_def)

lemma prevString_run:
  "history_pos s = 0 \<Longrightarrow> k < length (history_deque s) \<Longrightarrow>
   run h (replicate k PrevString) s = s\<lparr>history_pos := int k\<rparr>"
proof (induction k)
  case 0
  then show ?case by simp
next
  case (Suc k)
  have r: "replicate (Suc k) PrevString = replicate k PrevString @ [PrevString]"
    by (simp add: replicate_append_same)
  have "run h (replicate k PrevString) s = s\<lparr>history_pos := int k\<rparr>"
    using Suc by simp
  then show ?case
    using Suc.prems unfolding r run_append
    by (simp add: prevString_inside nat_add_distrib)
qed

text \<open>
  C3.  Take a history of \<open>N \<ge> 1\<close> entries with the cursor at 0.  For each \<open>k\<close> with
  \<open>k + 1 < N\<close>, the call of \<open>script_prevString\<close> after \<open>k\<close> earlier ones moves the cursor
  to \<open>k + 1\<close> and only speaks that entry (no beep); the call after \<open>N - 1\<close> earlier ones
  plays the boundary beep for the oldest end and leaves the cursor at \<open>N - 1\<close>.
\<close>

theorem prevString_from_newest:
  assumes "history_deque s \<noteq> []" and "history_pos s = 0"
  shows "(\<forall>k. k + 1 < length (history_deque s) \<longrightarrow>
            script_prevString h (run h (replicate k PrevString) s)
              = (s\<lparr>history_pos := int k + 1\<rparr>, [OldSpeak (history_deque s ! (k + 1))]))
         \<and> script_prevString h (run h (replicate (length (history_deque s) - 1) PrevString) s)
              = (s\<lparr>history_pos := int (length (history_deque s)) - 1\<rparr>,
                 beepHistoryBoundary h False
                 @ [OldSpeak (history_deque s ! (length (history_deque s) - 1))])"
proof (intro conjI allI impI)
  fix k assume k: "k + 1 < length (history_deque s)"
  have "run h (replicate k PrevString) s = s\<lparr>history_pos := int k\<rparr>"
    using assms(2) k by (simp add: prevString_run)
  then show "script_prevString h (run h (replicate k PrevString) s)
              = (s\<lparr>history_pos := int k + 1\<rparr>, [OldSpeak (history_deque s ! (k + 1))])"
    using k by (simp add: prevString_inside nat_add_distrib)
next
  let ?n = "length (history_deque s)"
  let ?t = "s\<lparr>history_pos := int (?n - 1)\<rparr>"
  have n: "0 < ?n" using assms(1) by simp
  have e: "int (?n - 1) = int ?n - 1" using assms(1) by (cases "history_deque s") simp_all
  have r: "run h (replicate (?n - 1) PrevString) s = ?t"
    using assms(2) n by (simp add: prevString_run)
  have "cursor_inv ?t" "history_deque ?t \<noteq> []"
       "history_pos ?t + 1 > int (length (history_deque ?t)) - 1"
    using assms(1) by (cases "history_deque s"; simp add: cursor_inv_def)+
  then have "script_prevString h ?t
               = (?t, beepHistoryBoundary h False
                      @ [OldSpeak (history_deque ?t ! nat (history_pos ?t))])"
    by (rule prevString_at_oldest)
  then have "script_prevString h ?t
               = (?t, beepHistoryBoundary h False @ [OldSpeak (history_deque s ! (?n - 1))])"
    by simp
  then show "script_prevString h (run h (replicate (?n - 1) PrevString) s)
              = (s\<lparr>history_pos := int ?n - 1\<rparr>,
                 beepHistoryBoundary h False @ [OldSpeak (history_deque s ! (?n - 1))])"
    unfolding r e .
qed

lemma two_entries_eq:
  "two_entries = \<lparr>history_deque = [[Str (ascii ''b'')], [Str (ascii ''a'')]], maxlen = 2, recorded = [],
                  recording = False, history_pos = 0\<rparr>"
  by (simp add: two_entries_def host0_def init_def append_to_history_def appendleft_def Let_def)

theorem prevString_from_newest_witness:
  "history_deque two_entries \<noteq> [] \<and> history_pos two_entries = 0
   \<and> script_prevString host0 two_entries
       = (two_entries\<lparr>history_pos := 1\<rparr>, [OldSpeak [Str (ascii ''a'')]])
   \<and> script_prevString host0 (run host0 [PrevString] two_entries)
       = (two_entries\<lparr>history_pos := 1\<rparr>, [Beep 200 100 None, OldSpeak [Str (ascii ''a'')]])"
proof -
  have a: "history_deque two_entries \<noteq> []" and b: "history_pos two_entries = 0"
    by (simp_all add: two_entries_eq)
  have l: "length (history_deque two_entries) = 2"
          "history_deque two_entries ! Suc 0 = [Str (ascii ''a'')]"
    by (simp_all add: two_entries_eq)
  have beep: "beepHistoryBoundary host0 False = [Beep 200 100 None]"
    by (simp add: beepHistoryBoundary_def host0_def BOUNDARY_BEEP_FREQUENCY_def
          BOUNDARY_BEEP_DURATION_def)
  have first: "script_prevString host0 (run host0 (replicate 0 PrevString) two_entries)
       = (two_entries\<lparr>history_pos := int 0 + 1\<rparr>, [OldSpeak (history_deque two_entries ! (0 + 1))])"
    using prevString_from_newest [OF a b, of host0, THEN conjunct1, THEN spec, of 0] by (simp add: l)
  have last: "script_prevString host0 (run host0 (replicate (2 - 1) PrevString) two_entries)
       = (two_entries\<lparr>history_pos := int 2 - 1\<rparr>,
          beepHistoryBoundary host0 False @ [OldSpeak (history_deque two_entries ! (2 - 1))])"
    using prevString_from_newest [OF a b, of host0, THEN conjunct2] by (simp only: l)
  have r1: "replicate (2 - 1) PrevString = [PrevString]" by (simp add: numeral_2_eq_2)
  show ?thesis
    using a b first last by (simp add: l beep r1)
qed

section \<open>Recording\<close>

lemma getSequenceText_entry:
  "getSequenceText h (filter (\<lambda>command. command \<noteq> FocusLossCancellableSpeechCommand) q)
   = getSequenceText h q"
proof -
  have "filter isinstance_str (filter (\<lambda>command. command \<noteq> FocusLossCancellableSpeechCommand) q)
        = filter isinstance_str q"
    by (induction q) auto
  then show ?thesis by (simp add: getSequenceText_def)
qed

lemma append_to_history_recorded:
  "recording s \<Longrightarrow>
   recorded (append_to_history h q s) = recorded s @ [getSequenceText h q]
   \<and> recording (append_to_history h q s)"
  by (simp add: append_to_history_def Let_def getSequenceText_entry)

lemma pushes_recorded:
  "recording s \<Longrightarrow>
   recorded (pushes h qs s) = recorded s @ map (getSequenceText h) qs \<and> recording (pushes h qs s)"
  by (induction qs arbitrary: s) (simp_all add: append_to_history_recorded)

lemma mySpeak_push:
  "str_strip (getSequenceText h q) \<noteq> [] \<Longrightarrow> fst (mySpeak h q s) = append_to_history h q s"
  by (simp add: mySpeak_def Let_def)

lemma startRecording_idle:
  "\<not> recording s \<Longrightarrow>
   script_startRecording s = (s\<lparr>recording := True\<rparr>, speakMessage (ascii ''Started recording speech''))"
  by (simp add: script_startRecording_def)

text \<open>
  C4.  In a reachable state with no recording running, start a recording, let three
  sequences with non-blank text be spoken, and stop the recording.  Then the text put on
  the clipboard is the three texts in the order spoken, with a newline between them, and
  \<open>_recorded\<close> is empty after the stop.
\<close>

theorem recording_three_pushes:
  assumes "s = run h as (init h)" and "\<not> recording s"
    and "str_strip (getSequenceText h q1) \<noteq> []"
    and "str_strip (getSequenceText h q2) \<noteq> []"
    and "str_strip (getSequenceText h q3) \<noteq> []"
  shows "snd (script_stopRecording (run h [StartRecording, Speak q1, Speak q2, Speak q3] s))
           = CopyToClip (getSequenceText h q1 @ (ascii ''\<newline>'') @ getSequenceText h q2 @ (ascii ''\<newline>'')
                         @ getSequenceText h q3)
             # speakMessage (ascii ''Recorded speech copied to clipboard'')
         \<and> recorded (fst (script_stopRecording
                            (run h [StartRecording, Speak q1, Speak q2, Speak q3] s))) = []
         \<and> \<not> recording (fst (script_stopRecording
                            (run h [StartRecording, Speak q1, Speak q2, Speak q3] s)))"
proof -
  have "rec_inv s" using assms(1) by (simp add: rec_inv_run rec_inv_init)
  then have e: "recorded s = []" using assms(2) by (simp add: rec_inv_def)
  let ?s1 = "s\<lparr>recording := True\<rparr>"
  have r: "run h [StartRecording, Speak q1, Speak q2, Speak q3] s = pushes h [q1, q2, q3] ?s1"
    using assms by (simp add: startRecording_idle mySpeak_push)
  have "recorded (pushes h [q1, q2, q3] ?s1) = recorded ?s1 @ map (getSequenceText h) [q1, q2, q3]
        \<and> recording (pushes h [q1, q2, q3] ?s1)"
    by (rule pushes_recorded) simp
  then have "recorded (pushes h [q1, q2, q3] ?s1)
               = [getSequenceText h q1, getSequenceText h q2, getSequenceText h q3]"
    and "recording (pushes h [q1, q2, q3] ?s1)"
    using e by simp_all
  then show ?thesis
    unfolding r by (simp add: script_stopRecording_def Let_def ascii_def)
qed

theorem recording_three_pushes_witness:
  "init host0 = run host0 [] (init host0) \<and> \<not> recording (init host0)
   \<and> str_strip (getSequenceText host0 [Str (ascii ''a'')]) = ascii ''a''
   \<and> str_strip (getSequenceText host0 [Str (ascii ''b''), OtherCommand 0, Str (ascii ''c'')]) = ascii ''b  c''
   \<and> str_strip (getSequenceText host0 [Str (ascii '' d'')]) = ascii ''d''
   \<and> snd (script_stopRecording
             (run host0 [StartRecording, Speak [Str (ascii ''a'')],
                         Speak [Str (ascii ''b''), OtherCommand 0, Str (ascii ''c'')], Speak [Str (ascii '' d'')]]
                (init host0)))
       = [CopyToClip (ascii ''a\<newline>b  c\<newline> d''), OldSpeak [Str (ascii ''Recorded speech copied to clipboard'')]]
   \<and> recorded (fst (script_stopRecording
             (run host0 [StartRecording, Speak [Str (ascii ''a'')],
                         Speak [Str (ascii ''b''), OtherCommand 0, Str (ascii ''c'')], Speak [Str (ascii '' d'')]]
                (init host0)))) = []"
proof -
  have r: "init host0 = run host0 [] (init host0)" by simp
  have n: "\<not> recording (init host0)" by (simp add: init_def)
  have t: "getSequenceText host0 [Str (ascii ''a'')] = ascii ''a''"
          "getSequenceText host0 [Str (ascii ''b''), OtherCommand 0, Str (ascii ''c'')] = ascii ''b  c''"
          "getSequenceText host0 [Str (ascii '' d'')] = ascii '' d''"
    by (simp_all add: getSequenceText_def host0_def ascii_def)
  have s: "str_strip (ascii ''a'') = ascii ''a''" "str_strip (ascii ''b  c'') = ascii ''b  c''"
          "str_strip (ascii '' d'') = ascii ''d''"
    by (simp_all add: str_eval)
  have c: "ascii ''a'' @ ascii ''\<newline>'' @ ascii ''b  c'' @ ascii ''\<newline>'' @ ascii '' d''
           = ascii ''a\<newline>b  c\<newline> d''"
    by (simp add: ascii_def)
  have e: "ascii ''a'' \<noteq> []" "ascii ''b  c'' \<noteq> []" "ascii ''d'' \<noteq> []"
    by (simp_all add: ascii_def)
  have q: "str_strip (getSequenceText host0 [Str (ascii ''a'')]) \<noteq> []"
          "str_strip (getSequenceText host0 [Str (ascii ''b''), OtherCommand 0, Str (ascii ''c'')]) \<noteq> []"
          "str_strip (getSequenceText host0 [Str (ascii '' d'')]) \<noteq> []"
    by (simp_all add: t s e)
  show ?thesis
    using recording_three_pushes [OF r n q] n
    by (simp add: t s c speakMessage_def)
qed

text \<open>
  C5.  In a reachable state with no recording running, \<open>script_startRecording\<close> only
  sets \<open>_recording\<close>, \<open>_recorded\<close> is empty afterwards, and whatever is appended to the
  history from then on makes \<open>_recorded\<close> exactly the texts appended since the start.
  When a recording is running, the script changes nothing and says so.
\<close>

theorem startRecording_transitions:
  assumes "s = run h as (init h)"
  shows "(\<not> recording s \<longrightarrow>
            script_startRecording s
              = (s\<lparr>recording := True\<rparr>, speakMessage (ascii ''Started recording speech''))
            \<and> recorded (fst (script_startRecording s)) = []
            \<and> (\<forall>qs. recorded (pushes h qs (fst (script_startRecording s)))
                       = map (getSequenceText h) qs))
         \<and> (recording s \<longrightarrow>
              script_startRecording s = (s, speakMessage (ascii ''Already recording speech'')))"
proof -
  have i: "rec_inv s" using assms by (simp add: rec_inv_run rec_inv_init)
  have "recorded (pushes h qs (s\<lparr>recording := True\<rparr>)) = map (getSequenceText h) qs"
    if "\<not> recording s" for qs
  proof -
    have "recorded s = []" using i that by (simp add: rec_inv_def)
    then show ?thesis
      using pushes_recorded [of "s\<lparr>recording := True\<rparr>" h qs] by simp
  qed
  moreover have "\<not> recording s \<Longrightarrow> recorded s = []"
    using i by (simp add: rec_inv_def)
  ultimately show ?thesis
    by (simp add: script_startRecording_def)
qed

theorem startRecording_transitions_witness:
  "init host0 = run host0 [] (init host0) \<and> \<not> recording (init host0)
   \<and> script_startRecording (init host0)
       = ((init host0)\<lparr>recording := True\<rparr>, [OldSpeak [Str (ascii ''Started recording speech'')]])
   \<and> recorded (pushes host0 [[Str (ascii ''x'')], [Str (ascii ''y'')]] (fst (script_startRecording (init host0))))
       = [ascii ''x'', ascii ''y'']
   \<and> recording (run host0 [StartRecording, Speak [Str (ascii ''a'')]] (init host0))
   \<and> script_startRecording (run host0 [StartRecording, Speak [Str (ascii ''a'')]] (init host0))
       = (run host0 [StartRecording, Speak [Str (ascii ''a'')]] (init host0),
          [OldSpeak [Str (ascii ''Already recording speech'')]])"
proof -
  have r: "init host0 = run host0 [] (init host0)" by simp
  have n: "\<not> recording (init host0)" by (simp add: init_def)
  have t: "getSequenceText host0 [Str (ascii ''x'')] = ascii ''x''" "getSequenceText host0 [Str (ascii ''y'')] = ascii ''y''"
    by (simp_all add: getSequenceText_def)
  have a: "recording (run host0 [StartRecording, Speak [Str (ascii ''a'')]] (init host0))"
    by (simp add: init_def script_startRecording_def mySpeak_def append_to_history_def Let_def)
  have 1: "script_startRecording (init host0)
       = ((init host0)\<lparr>recording := True\<rparr>, speakMessage (ascii ''Started recording speech''))"
    and 2: "recorded (pushes host0 [[Str (ascii ''x'')], [Str (ascii ''y'')]] (fst (script_startRecording (init host0))))
       = map (getSequenceText host0) [[Str (ascii ''x'')], [Str (ascii ''y'')]]"
    using startRecording_transitions [OF r] n by blast+
  have 3: "script_startRecording (run host0 [StartRecording, Speak [Str (ascii ''a'')]] (init host0))
       = (run host0 [StartRecording, Speak [Str (ascii ''a'')]] (init host0),
          speakMessage (ascii ''Already recording speech''))"
    using startRecording_transitions [OF refl, of host0 "[StartRecording, Speak [Str (ascii ''a'')]]"] a
    by blast
  show ?thesis
    using r n a 1 2 3 by (simp add: t speakMessage_def)
qed

section \<open>Version comparison: properties\<close>













lemma field_Nil: "field [] i = 0"
  by (simp add: field_def)










section \<open>Searching in the dialog\<close>



lemma str_contains_empty: "str_contains [] s"
  by (cases s) simp_all

lemma doSearch_searchHistory:
  "searchHistory (doSearch h text d) = filter (\<lambda>item. str_contains text (lower h item)) (history d)"
  by (simp add: doSearch_def Let_def str_contains_empty)


lemma doSearch_curSearch: "curSearch (doSearch h text d) = curSearch d"
  by (simp add: doSearch_def Let_def)

lemma doSearch_searches: "searches (doSearch h text d) = searches d"
  by (simp add: doSearch_def Let_def)




lemma onSearch_changed:
  "lower h val \<noteq> curSearch d \<Longrightarrow>
   onSearch h val d
     = doSearch h (lower h val)
         (d\<lparr>searches := (searches d)(curSearch d \<mapsto> max 0 (focusedItem d)),
            curSearch := lower h val\<rparr>)"
  by (simp add: onSearch_def Let_def max_def)

lemma onSearch_same: "lower h val = curSearch d \<Longrightarrow> onSearch h val d = d"
  by (simp add: onSearch_def)




lemma onSearch_curSearch: "curSearch (onSearch h val d) = lower h val"
  by (cases "lower h val = curSearch d") (simp_all add: onSearch_same onSearch_changed doSearch_curSearch)



lemma lower_examples:
  "lower host1 (ascii ''hello'') = ascii ''hello''" "lower host1 (ascii ''Hello world'') = ascii ''hello world''"
  "lower host1 (ascii ''Goodbye'') = ascii ''goodbye''" "lower host1 (ascii ''hello there'') = ascii ''hello there''"
  by (simp_all add: str_eval)


lemma three_entries_curSearch: "curSearch (HistoryDialog_init host1 three_entries) = []"
  by (simp add: HistoryDialog_init_def updateHistory_def doSearch_curSearch)





lemma doSearch_focusedItem:
  "focusedItem (doSearch h text d) =
     (if searchHistory (doSearch h text d) = [] then - 1
      else case searches d text of
             None \<Rightarrow> 0
           | Some i \<Rightarrow> max 0 (min i (int (length (searchHistory (doSearch h text d))) - 1)))"
proof -
  let ?v = "filter (\<lambda>item. str_contains text (lower h item)) (history d)"
  have v: "searchHistory (doSearch h text d) = ?v" by (rule doSearch_searchHistory)
  have w: "(if text = [] then history d else ?v) = ?v" by (simp add: str_contains_empty)
  show ?thesis
  proof (cases "?v = []")
    case True
    then show ?thesis unfolding v by (simp add: doSearch_def Let_def w)
  next
    case False
    then obtain x xs where e: "?v = x # xs" by (cases ?v) auto
    show ?thesis
      unfolding v
      by (cases "searches d text") (auto simp: doSearch_def Let_def w e max_def min_def)
  qed
qed


lemma focus_restored_on_revisit:
  assumes "lower h val2 \<noteq> curSearch d" and "lower h val1 = curSearch d"
  shows "focusedItem (onSearch h val1
            (updateHistory h addon ((onSearch h val2 d)\<lparr>focusedItem := g\<rparr>)))
         = (let view = searchHistory (onSearch h val1
                          (updateHistory h addon ((onSearch h val2 d)\<lparr>focusedItem := g\<rparr>)))
            in if view = [] then - 1
               else min (max 0 (focusedItem d)) (int (length view) - 1))"
proof -
  let ?d2 = "updateHistory h addon ((onSearch h val2 d)\<lparr>focusedItem := g\<rparr>)"
  have c: "curSearch ?d2 = lower h val2"
    by (simp add: updateHistory_def doSearch_curSearch onSearch_curSearch)
  have "searches ?d2 = searches (onSearch h val2 d)"
    by (simp add: updateHistory_def doSearch_searches)
  then have s: "searches ?d2 (lower h val1) = Some (max 0 (focusedItem d))"
    using assms by (simp add: onSearch_changed doSearch_searches)
  have n: "lower h val1 \<noteq> curSearch ?d2" using assms c by simp
  let ?v = "searchHistory (onSearch h val1 ?d2)"
  have f: "focusedItem (onSearch h val1 ?d2)
           = (if ?v = [] then - 1
              else max 0 (min (max 0 (focusedItem d)) (int (length ?v) - 1)))"
    using n s by (simp add: onSearch_changed doSearch_focusedItem)
  show ?thesis
  proof (cases "?v = []")
    case True
    then show ?thesis using f by (simp add: Let_def)
  next
    case False
    then have "1 \<le> int (length ?v)" by (cases ?v) simp_all
    then show ?thesis using f False by (simp add: Let_def max_def min_def)
  qed
qed




end
